theory Spec2Isabelle
  imports Main "HOL-Library.Sublist"
begin

section \<open>Exceptions\<close>

text \<open>
  The exceptions that can leave the script. \<open>validate_cookies_path\<close> raises
  \<open>FileNotFoundError\<close> itself; the calls it makes into \<open>pathlib\<close> and the calls
  \<open>main\<close> makes into \<open>gamdl\<close> may raise anything else, and nothing in the script
  catches an exception. Each constructor carries the message, \<open>str(e)\<close>.
\<close>

datatype exc =
    FileNotFoundError string
  | PermissionError string
  | OSError string
  | RuntimeError string
  | ValueError string
  | ImportError string
  | LibraryError string

text \<open>What \<open>except FileNotFoundError\<close> catches: decided by the class, not the message.\<close>

fun is_FileNotFoundError :: "exc \<Rightarrow> bool" where
  "is_FileNotFoundError (FileNotFoundError m) = True"
| "is_FileNotFoundError (PermissionError m) = False"
| "is_FileNotFoundError (OSError m) = False"
| "is_FileNotFoundError (RuntimeError m) = False"
| "is_FileNotFoundError (ValueError m) = False"
| "is_FileNotFoundError (ImportError m) = False"
| "is_FileNotFoundError (LibraryError m) = False"

section \<open>The file system as \<open>pathlib\<close> sees it\<close>

text \<open>
  A \<open>Path\<close> is modelled by its string form. The file system is the state the two
  \<open>pathlib\<close> calls of the script read:
  \<^item> \<open>resolve fs s\<close> is \<open>Path(s).resolve()\<close>: the absolute path with \<open>.\<close>, \<open>..\<close> and
    symbolic links eliminated, or the exception the call raises;
  \<^item> \<open>stat fs r\<close> is \<open>os.stat(r)\<close>, which follows symbolic links: the type of the file
    found, \<open>None\<close> where nothing is found (a missing entry, a broken link, a non-directory
    on the way: the errors \<open>pathlib\<close> ignores), or the exception for any other failure
    (permission denied, for one).
\<close>

datatype file_type = RegularFile | Directory | SpecialFile

record filesystem =
  resolve :: "string \<Rightarrow> exc + string"
  stat :: "string \<Rightarrow> exc + file_type option"

text \<open>
  \<open>Path.is_file()\<close>: true for a regular file (or a link to one), false where \<open>stat\<close>
  finds nothing or finds another type; other errors propagate.
\<close>

definition is_file :: "filesystem \<Rightarrow> string \<Rightarrow> exc + bool" where
  "is_file fs r =
     (case stat fs r of
        Inl e \<Rightarrow> Inl e
      | Inr t \<Rightarrow> Inr (t = Some RegularFile))"

section \<open>The world: file system and history of calls\<close>

text \<open>
  The script's calls outside itself are recorded in order, so that what was done, and in
  which order, can be stated. \<open>gamdl_call\<close> lists the calls \<open>main\<close> makes into the
  \<open>gamdl\<close> library, in the order of the source.
\<close>

datatype gamdl_call =
    FromNetscapeCookies string
  | AppleMusicApiSetup
  | NewItunesApi
  | ItunesApiSetup
  | NewAppleMusicInterface
  | NewAppleMusicSongInterface
  | NewAppleMusicMusicVideoInterface
  | NewAppleMusicUploadedVideoInterface
  | NewAppleMusicBaseDownloader
  | BaseDownloaderSetup
  | NewAppleMusicSongDownloader
  | NewAppleMusicMusicVideoDownloader
  | NewAppleMusicUploadedVideoDownloader
  | NewAppleMusicDownloader
  | GetUrlInfo string
  | GetDownloadQueue
  | Download nat

datatype event =
    PathResolve string
  | PathIsFile string
  | Import string
  | Gamdl gamdl_call

record world =
  fs :: filesystem
  trace :: "event list"

definition record_event :: "event \<Rightarrow> world \<Rightarrow> world" where
  "record_event ev w = w\<lparr>trace := trace w @ [ev]\<rparr>"

text \<open>The two \<open>pathlib\<close> calls: each reads the file system and leaves it as it is.\<close>

definition path_resolve :: "string \<Rightarrow> world \<Rightarrow> (exc + string) \<times> world" where
  "path_resolve s w = (resolve (fs w) s, record_event (PathResolve s) w)"

definition path_is_file :: "string \<Rightarrow> world \<Rightarrow> (exc + bool) \<times> world" where
  "path_is_file r w = (is_file (fs w) r, record_event (PathIsFile r) w)"

section \<open>\<open>validate_cookies_path\<close>\<close>

text \<open>
  The message of the \<open>FileNotFoundError\<close>: the f-string with the resolved path between
  single quotes (character 39), followed by the second literal.
\<close>

definition missing_cookies_message :: "string \<Rightarrow> string" where
  "missing_cookies_message path =
     (''Missing Apple Music cookies file at '' @ [CHR 39] @ path @ [CHR 39] @ ''. '')
     @ ''Create a Netscape-format cookies.txt export before running downloads.''"

text \<open>
  The argument is \<open>None\<close> when the caller passes nothing: the default \<open>"cookies.txt"\<close>
  then stands for it.
\<close>

definition validate_cookies_path :: "string option \<Rightarrow> world \<Rightarrow> (exc + string) \<times> world" where
  "validate_cookies_path arg w =
     (let cookies_path = (case arg of None \<Rightarrow> ''cookies.txt'' | Some s \<Rightarrow> s) in
      case path_resolve cookies_path w of
        (Inl e, w1) \<Rightarrow> (Inl e, w1)
      | (Inr path, w1) \<Rightarrow>
          (case path_is_file path w1 of
             (Inl e, w2) \<Rightarrow> (Inl e, w2)
           | (Inr isf, w2) \<Rightarrow>
               if \<not> isf then (Inl (FileNotFoundError (missing_cookies_message path)), w2)
               else (Inr path, w2)))"

section \<open>\<open>main\<close>\<close>

text \<open>
  What \<open>gamdl\<close> does is not part of the script: it is a parameter. For each call it says
  whether the call raises and how the call changes the file system (a download writes
  files); \<open>get_url_info\<close> and \<open>get_download_queue\<close> return values the script only tests
  for truth and iterates over, so the model keeps whether the URL information is truthy
  and how many items the queue has (none when it is \<open>None\<close> or empty).
\<close>

record gamdl =
  import_raises :: "string \<Rightarrow> exc option"
  raises :: "gamdl_call \<Rightarrow> exc option"
  effect :: "gamdl_call \<Rightarrow> filesystem \<Rightarrow> filesystem"
  url_info :: bool
  download_queue :: nat

definition import_module :: "gamdl \<Rightarrow> string \<Rightarrow> world \<Rightarrow> (exc + unit) \<times> world" where
  "import_module g m w =
     (case import_raises g m of
        Some e \<Rightarrow> (Inl e, record_event (Import m) w)
      | None \<Rightarrow> (Inr (), record_event (Import m) w))"

definition call_gamdl :: "gamdl \<Rightarrow> gamdl_call \<Rightarrow> world \<Rightarrow> (exc + unit) \<times> world" where
  "call_gamdl g c w =
     (let w' = record_event (Gamdl c) (w\<lparr>fs := effect g c (fs w)\<rparr>) in
      case raises g c of
        Some e \<Rightarrow> (Inl e, w')
      | None \<Rightarrow> (Inr (), w'))"

text \<open>Statements in sequence: the first exception ends the run.\<close>

fun run_imports :: "gamdl \<Rightarrow> string list \<Rightarrow> world \<Rightarrow> (exc + unit) \<times> world" where
  "run_imports g [] w = (Inr (), w)"
| "run_imports g (m # ms) w =
     (case import_module g m w of
        (Inl e, w') \<Rightarrow> (Inl e, w')
      | (Inr u, w') \<Rightarrow> run_imports g ms w')"

fun run_calls :: "gamdl \<Rightarrow> gamdl_call list \<Rightarrow> world \<Rightarrow> (exc + unit) \<times> world" where
  "run_calls g [] w = (Inr (), w)"
| "run_calls g (c # cs) w =
     (case call_gamdl g c w of
        (Inl e, w') \<Rightarrow> (Inl e, w')
      | (Inr u, w') \<Rightarrow> run_calls g cs w')"

definition song_url :: string where
  "song_url =
     ''https://music.apple.com/us/album/never-gonna-give-you-up-2022-remaster/1624945511?i=1624945512''"

text \<open>
  The calls from the construction of the API client to \<open>get_url_info\<close>, in source order.
\<close>

definition setup_calls :: "string \<Rightarrow> gamdl_call list" where
  "setup_calls cookies_path =
     [FromNetscapeCookies cookies_path, AppleMusicApiSetup,
      NewItunesApi, ItunesApiSetup,
      NewAppleMusicInterface, NewAppleMusicSongInterface,
      NewAppleMusicMusicVideoInterface, NewAppleMusicUploadedVideoInterface,
      NewAppleMusicBaseDownloader, BaseDownloaderSetup,
      NewAppleMusicSongDownloader, NewAppleMusicMusicVideoDownloader,
      NewAppleMusicUploadedVideoDownloader,
      NewAppleMusicDownloader,
      GetUrlInfo song_url]"

text \<open>The modules \<open>main\<close> imports before anything else, in source order.\<close>

definition gamdl_modules :: "string list" where
  "gamdl_modules = [''gamdl.api'', ''gamdl.downloader'', ''gamdl.interface'']"

definition main :: "gamdl \<Rightarrow> world \<Rightarrow> (exc + unit) \<times> world" where
  "main g w =
     (case run_imports g gamdl_modules w of
        (Inl e, w0) \<Rightarrow> (Inl e, w0)
      | (Inr u, w0) \<Rightarrow>
     (case validate_cookies_path None w0 of
        (Inl e, w1) \<Rightarrow> (Inl e, w1)
      | (Inr cookies_path, w1) \<Rightarrow>
     (case run_calls g (setup_calls cookies_path) w1 of
        (Inl e, w2) \<Rightarrow> (Inl e, w2)
      | (Inr u, w2) \<Rightarrow>
          if url_info g then
            (case call_gamdl g GetDownloadQueue w2 of
               (Inl e, w3) \<Rightarrow> (Inl e, w3)
             | (Inr u, w3) \<Rightarrow>
                 if download_queue g \<noteq> 0
                 then run_calls g (map Download [0..<download_queue g]) w3
                 else (Inr (), w3))
          else (Inr (), w2))))"

text \<open>The events a run added to the history, and the \<open>gamdl\<close> calls among events.\<close>

definition new_events :: "world \<Rightarrow> world \<Rightarrow> event list" where
  "new_events w w' = drop (length (trace w)) (trace w')"

fun gamdl_calls :: "event list \<Rightarrow> gamdl_call list" where
  "gamdl_calls [] = []"
| "gamdl_calls (Gamdl c # evs) = c # gamdl_calls evs"
| "gamdl_calls (ev # evs) = gamdl_calls evs"

text \<open>
  \<open>validated_first evs\<close>: no \<open>gamdl\<close> call stands in \<open>evs\<close> before the validator's first
  action, the resolution of the default cookies path.
\<close>

fun validated_first :: "event list \<Rightarrow> bool" where
  "validated_first [] = True"
| "validated_first (PathResolve s # evs) = (s = ''cookies.txt'' \<or> validated_first evs)"
| "validated_first (Gamdl c # evs) = False"
| "validated_first (ev # evs) = validated_first evs"

fun is_path_query :: "event \<Rightarrow> bool" where
  "is_path_query (PathResolve s) = True"
| "is_path_query (PathIsFile s) = True"
| "is_path_query (Import m) = False"
| "is_path_query (Gamdl c) = False"

section \<open>A POSIX file system behind \<open>pathlib\<close>\<close>

text \<open>
  \<open>pathlib\<close> and \<open>posixpath\<close> are Python's own; the script only calls them. This section
  gives the file system of the previous sections a concrete form, so that claims about
  particular paths can be stated: the kernel's path walk behind \<open>os.stat\<close> and
  \<open>os.lstat\<close>, and \<open>Path.resolve()\<close>, \<open>Path.is_file()\<close> and \<open>posixpath.realpath\<close> as
  CPython 3.11 has them.

  \<open>inodes\<close> is what is stored at an absolute path, a list of names under the root (the
  root is always a directory); \<open>getcwd\<close> is the working directory of the process;
  \<open>searchable\<close> says of a directory whether the process may search it (execute
  permission). \<open>recursion_room\<close> is how many nested calls of \<open>_joinrealpath\<close> the
  interpreter's recursion limit leaves.
\<close>

datatype inode = File | Dir | Link string | Special

datatype errno = ENOENT | EACCES | ENOTDIR | ENAMETOOLONG | ELOOP

record posix =
  getcwd :: "string list"
  inodes :: "string list \<Rightarrow> inode option"
  searchable :: "string list \<Rightarrow> bool"
  recursion_room :: nat

definition inode_at :: "posix \<Rightarrow> string list \<Rightarrow> inode option" where
  "inode_at p cs = (if cs = [] then Some Dir else inodes p cs)"

subsection \<open>Path strings\<close>

text \<open>\<open>s.split('/')\<close> and \<open>'/'.join(names)\<close>.\<close>

fun split_sep :: "string \<Rightarrow> string list" where
  "split_sep [] = [[]]"
| "split_sep (c # cs) =
     (if c = CHR ''/'' then [] # split_sep cs
      else (case split_sep cs of [] \<Rightarrow> [[c]] | x # xs \<Rightarrow> (c # x) # xs))"

fun join_sep :: "string list \<Rightarrow> string" where
  "join_sep [] = []"
| "join_sep [c] = c"
| "join_sep (c # cs) = c @ CHR ''/'' # join_sep cs"

text \<open>\<open>posixpath.isabs\<close>, \<open>posixpath.join\<close> of two paths, and \<open>posixpath.split\<close>.\<close>

definition isabs :: "string \<Rightarrow> bool" where
  "isabs s = (case s of [] \<Rightarrow> False | c # cs \<Rightarrow> c = CHR ''/'')"

definition join :: "string \<Rightarrow> string \<Rightarrow> string" where
  "join a b =
     (if isabs b then b
      else if a = [] \<or> last a = CHR ''/'' then a @ b
      else a @ CHR ''/'' # b)"

definition rstrip_sep :: "string \<Rightarrow> string" where
  "rstrip_sep s = rev (dropWhile (\<lambda>c. c = CHR ''/'') (rev s))"

definition split_path :: "string \<Rightarrow> string \<times> string" where
  "split_path s =
     (let tail = rev (takeWhile (\<lambda>c. c \<noteq> CHR ''/'') (rev s));
          head = take (length s - length tail) s
      in (if head \<noteq> [] \<and> rstrip_sep head \<noteq> [] then rstrip_sep head else head, tail))"

text \<open>
  \<open>posixpath.normpath\<close>: empty names and \<open>.\<close> go, \<open>..\<close> takes the name before it
  away (at the root it goes itself), and exactly two leading slashes are kept.
\<close>

definition norm_step :: "nat \<Rightarrow> string list \<Rightarrow> string \<Rightarrow> string list" where
  "norm_step initial_slashes new_comps name =
     (if name = [] \<or> name = ''.'' then new_comps
      else if name \<noteq> ''..'' \<or> (initial_slashes = 0 \<and> new_comps = []) \<or>
              (new_comps \<noteq> [] \<and> last new_comps = ''..'')
      then new_comps @ [name]
      else if new_comps \<noteq> [] then butlast new_comps
      else new_comps)"

definition normpath :: "string \<Rightarrow> string" where
  "normpath path =
     (if path = [] then ''.''
      else
        let initial_slashes =
              (if \<not> isabs path then 0
               else if take 2 path = ''//'' \<and> take 3 path \<noteq> ''///'' then 2
               else 1);
            comps = foldl (norm_step initial_slashes) [] (split_sep path);
            res = replicate initial_slashes (CHR ''/'') @ join_sep comps
        in if res = [] then ''.'' else res)"

text \<open>The string of an absolute path.\<close>

definition path_string :: "string list \<Rightarrow> string" where
  "path_string cs = CHR ''/'' # join_sep cs"

text \<open>
  \<open>repr\<close> of an ASCII string, as it stands in the message of an \<open>OSError\<close>: between
  single quotes (character 39), or double quotes (34) when the string has a single
  quote and no double quote; the quote in use and the backslash (92) are escaped, and so
  are the control characters.
\<close>

definition hex_digit :: "nat \<Rightarrow> char" where
  "hex_digit n = ''0123456789abcdef'' ! (n mod 16)"

definition repr_char :: "char \<Rightarrow> char \<Rightarrow> string" where
  "repr_char quote c =
     (if c = quote \<or> c = CHR 92 then [CHR 92, c]
      else if c = CHR 9 then [CHR 92, CHR ''t'']
      else if c = CHR 10 then [CHR 92, CHR ''n'']
      else if c = CHR 13 then [CHR 92, CHR ''r'']
      else if (of_char c :: nat) < 32 \<or> (of_char c :: nat) = 127
      then [CHR 92, CHR ''x'', hex_digit (of_char c div 16), hex_digit (of_char c)]
      else [c])"

definition repr :: "string \<Rightarrow> string" where
  "repr s =
     (let quote = (if CHR 39 \<in> set s \<and> CHR 34 \<notin> set s then CHR 34 else CHR 39)
      in [quote] @ concat (map (repr_char quote) s) @ [quote])"

subsection \<open>The kernel's path walk\<close>

text \<open>
  \<open>namei n p follow cur names\<close> walks \<open>names\<close> from the directory \<open>cur\<close>. Every name is
  looked up in a directory that must exist and be searchable; a name longer than 255
  is refused; a link is replaced by its target, at most 40 times in one walk (\<open>n\<close>
  counts what is left), the last name only when \<open>follow\<close> is set. The result is the
  place reached or the error number.
\<close>

fun namei :: "nat \<Rightarrow> posix \<Rightarrow> bool \<Rightarrow> string list \<Rightarrow> string list \<Rightarrow> errno + string list" where
  "namei n p follow cur [] = Inr cur"
| "namei n p follow cur (name # rest) =
     (case inode_at p cur of
        None \<Rightarrow> Inl ENOENT
      | Some i \<Rightarrow>
          if i \<noteq> Dir then Inl ENOTDIR
          else if \<not> searchable p cur then Inl EACCES
          else if name = ''.'' then namei n p follow cur rest
          else if name = ''..'' then namei n p follow (butlast cur) rest
          else if length name > 255 then Inl ENAMETOOLONG
          else
            (case inodes p (cur @ [name]) of
               None \<Rightarrow> Inl ENOENT
             | Some (Link target) \<Rightarrow>
                 if rest = [] \<and> \<not> follow then Inr (cur @ [name])
                 else
                   (case n of
                      0 \<Rightarrow> Inl ELOOP
                    | Suc m \<Rightarrow>
                        if target = [] then Inl ENOENT
                        else namei m p follow (if isabs target then [] else cur)
                               (filter (\<lambda>c. c \<noteq> []) (split_sep target) @ rest))
             | Some j \<Rightarrow> namei n p follow (cur @ [name]) rest))"

text \<open>
  The lookup of a path string: the empty string names nothing, a string of 4096
  characters or more is refused, a relative path starts at the working directory, and a
  trailing slash asks for a directory (and follows a last link).
\<close>

definition path_lookup :: "posix \<Rightarrow> bool \<Rightarrow> string \<Rightarrow> errno + inode" where
  "path_lookup p follow s =
     (if s = [] then Inl ENOENT
      else if length s \<ge> 4096 then Inl ENAMETOOLONG
      else
        let trailing = (last s = CHR ''/'');
            names = filter (\<lambda>c. c \<noteq> []) (split_sep s)
        in case namei 40 p (follow \<or> trailing) (if isabs s then [] else getcwd p) names of
             Inl e \<Rightarrow> Inl e
           | Inr place \<Rightarrow>
               (case inode_at p place of
                  None \<Rightarrow> Inl ENOENT
                | Some i \<Rightarrow> if trailing \<and> i \<noteq> Dir then Inl ENOTDIR else Inr i))"

subsection \<open>\<open>os.getcwd\<close>, \<open>os.stat\<close> under \<open>Path.is_file\<close>\<close>

text \<open>\<open>os.getcwd()\<close> raises when the working directory has been removed.\<close>

definition os_getcwd :: "posix \<Rightarrow> exc + string" where
  "os_getcwd p =
     (if inode_at p (getcwd p) = Some Dir then Inr (path_string (getcwd p))
      else Inl (FileNotFoundError ''[Errno 2] No such file or directory''))"

text \<open>
  \<open>os.stat\<close> as \<open>Path.is_file()\<close> uses it. \<open>is_file\<close> answers \<open>False\<close> for the error
  numbers \<open>ENOENT\<close>, \<open>ENOTDIR\<close> and \<open>ELOOP\<close> and for a path with a NUL character
  (\<open>ValueError\<close>): these are \<open>None\<close> here. Every other error is raised.
\<close>

definition stat_posix :: "posix \<Rightarrow> string \<Rightarrow> exc + file_type option" where
  "stat_posix p s =
     (if CHR 0x00 \<in> set s then Inr None
      else case path_lookup p True s of
             Inr File \<Rightarrow> Inr (Some RegularFile)
           | Inr Dir \<Rightarrow> Inr (Some Directory)
           | Inr Special \<Rightarrow> Inr (Some SpecialFile)
           | Inr (Link target) \<Rightarrow> Inr None
           | Inl EACCES \<Rightarrow> Inl (PermissionError (''[Errno 13] Permission denied: '' @ repr s))
           | Inl ENAMETOOLONG \<Rightarrow> Inl (OSError (''[Errno 36] File name too long: '' @ repr s))
           | Inl e \<Rightarrow> Inr None)"

subsection \<open>\<open>posixpath.realpath\<close> and \<open>Path.resolve\<close>\<close>

text \<open>
  The loop of \<open>posixpath._joinrealpath\<close> in non-strict mode, over the names of \<open>rest\<close>.
  \<open>seen\<close> is the dictionary of the links met: \<open>Some None\<close> for a link being resolved,
  \<open>Some (Some r)\<close> for a link resolved to \<open>r\<close>. \<open>os.lstat\<close> raises \<open>ValueError\<close> for a
  path with a NUL character, which is not caught; its \<open>OSError\<close>s are caught and the
  name is kept as it is. The result is the path, whether no loop was met, and \<open>seen\<close>;
  \<open>n\<close> is the room left for nested calls, and running out of it is Python's
  \<open>RecursionError\<close>, a \<open>RuntimeError\<close>.
\<close>

fun joinrealpath ::
  "nat \<Rightarrow> posix \<Rightarrow> string \<Rightarrow> string list \<Rightarrow> (string \<Rightarrow> string option option) \<Rightarrow>
   exc + (string \<times> bool \<times> (string \<Rightarrow> string option option))" where
  "joinrealpath n p path [] seen = Inr (path, True, seen)"
| "joinrealpath n p path (name # rest) seen =
     (if name = [] \<or> name = ''.'' then joinrealpath n p path rest seen
      else if name = ''..'' then
        (if path \<noteq> [] then
           (case split_path path of
              (head, tail) \<Rightarrow>
                joinrealpath n p (if tail = ''..'' then join (join head ''..'') ''..'' else head)
                  rest seen)
         else joinrealpath n p ''..'' rest seen)
      else
        let newpath = join path name in
        if CHR 0x00 \<in> set newpath then Inl (ValueError ''embedded null byte'')
        else
          (case path_lookup p False newpath of
             Inr (Link target) \<Rightarrow>
               (case seen newpath of
                  Some (Some resolved) \<Rightarrow> joinrealpath n p resolved rest seen
                | Some None \<Rightarrow> Inr (join newpath (join_sep rest), False, seen)
                | None \<Rightarrow>
                    (case n of
                       0 \<Rightarrow> Inl (RuntimeError ''maximum recursion depth exceeded'')
                     | Suc m \<Rightarrow>
                         (case joinrealpath m p (if isabs target then ''/'' else path)
                                 (split_sep (if isabs target then tl target else target))
                                 (seen(newpath \<mapsto> None)) of
                            Inl e \<Rightarrow> Inl e
                          | Inr (path', ok, seen') \<Rightarrow>
                              if \<not> ok then Inr (join path' (join_sep rest), False, seen')
                              else joinrealpath n p path' rest (seen'(newpath \<mapsto> Some path')))))
           | other \<Rightarrow> joinrealpath n p newpath rest seen))"

text \<open>\<open>posixpath.abspath\<close> and \<open>posixpath.realpath\<close>.\<close>

definition abspath :: "posix \<Rightarrow> string \<Rightarrow> exc + string" where
  "abspath p path =
     (if isabs path then Inr (normpath path)
      else case os_getcwd p of
             Inl e \<Rightarrow> Inl e
           | Inr cwd \<Rightarrow> Inr (normpath (join cwd path)))"

definition realpath :: "posix \<Rightarrow> string \<Rightarrow> exc + string" where
  "realpath p filename =
     (case joinrealpath (recursion_room p) p (if isabs filename then ''/'' else [])
             (split_sep (if isabs filename then tl filename else filename)) Map.empty of
        Inl e \<Rightarrow> Inl e
      | Inr (path, ok, seen) \<Rightarrow> abspath p path)"

text \<open>
  \<open>Path(s).resolve()\<close>: \<open>realpath\<close>, then a \<open>stat\<close> of the result whose only purpose
  is to turn \<open>ELOOP\<close> into \<open>RuntimeError\<close> (its other \<open>OSError\<close>s are dropped, a
  \<open>ValueError\<close> is not). \<open>Path(s)\<close> itself drops empty names and \<open>.\<close> from \<open>s\<close> and
  turns the empty string into \<open>.\<close>; \<open>realpath\<close> skips all of these, so \<open>s\<close> goes to it
  as it is.
\<close>

definition resolve_posix :: "posix \<Rightarrow> string \<Rightarrow> exc + string" where
  "resolve_posix p s =
     (case realpath p s of
        Inl e \<Rightarrow> Inl e
      | Inr r \<Rightarrow>
          if CHR 0x00 \<in> set r then Inl (ValueError ''embedded null byte'')
          else if path_lookup p True r = Inl ELOOP
          then Inl (RuntimeError (''Symlink loop from '' @ repr r))
          else Inr r)"

definition posix_filesystem :: "posix \<Rightarrow> filesystem" where
  "posix_filesystem p = \<lparr>resolve = resolve_posix p, stat = stat_posix p\<rparr>"

text \<open>
  A working directory that exists: names that are neither empty, \<open>.\<close>, \<open>..\<close> nor
  contain a separator, leading to a directory.
\<close>

definition proper_name :: "string \<Rightarrow> bool" where
  "proper_name c = (c \<noteq> [] \<and> c \<noteq> ''.'' \<and> c \<noteq> ''..'' \<and> CHR ''/'' \<notin> set c)"

definition cwd_ok :: "posix \<Rightarrow> bool" where
  "cwd_ok p = (list_all proper_name (getcwd p) \<and> inode_at p (getcwd p) = Some Dir)"

section \<open>Example worlds\<close>

text \<open>
  The situations of the tests: a temporary directory as working directory, with a
  \<open>cookies.txt\<close> file in it or without. Both have a subdirectory \<open>d\<close>, a link \<open>l\<close> to it
  and a link \<open>loop\<close> to itself. Every directory can be searched.
\<close>

definition tmp_inodes :: "string list \<Rightarrow> inode option" where
  "tmp_inodes =
     [[''tmp''] \<mapsto> Dir,
      [''tmp'', ''t0''] \<mapsto> Dir,
      [''tmp'', ''t0'', ''d''] \<mapsto> Dir,
      [''tmp'', ''t0'', ''l''] \<mapsto> Link ''d'',
      [''tmp'', ''t0'', ''loop''] \<mapsto> Link ''loop'']"

definition tmp_missing :: posix where
  "tmp_missing =
     \<lparr>getcwd = [''tmp'', ''t0''], inodes = tmp_inodes,
      searchable = (\<lambda>d. True), recursion_room = 900\<rparr>"

definition tmp_present :: posix where
  "tmp_present =
     \<lparr>getcwd = [''tmp'', ''t0''],
      inodes = tmp_inodes([''tmp'', ''t0'', ''cookies.txt''] \<mapsto> File),
      searchable = (\<lambda>d. True), recursion_room = 900\<rparr>"

text \<open>The same directory after \<open>d\<close> was removed: \<open>l\<close> is a broken link.\<close>

definition tmp_dangling :: posix where
  "tmp_dangling =
     \<lparr>getcwd = [''tmp'', ''t0''],
      inodes = tmp_inodes([''tmp'', ''t0'', ''d''] := None),
      searchable = (\<lambda>d. True), recursion_room = 900\<rparr>"

text \<open>
  A process whose working directory \<open>/tmp/locked/work\<close> lies under a directory it may
  not search, and a process whose working directory \<open>/tmp/gone\<close> has been removed.
\<close>

definition tmp_locked :: posix where
  "tmp_locked =
     \<lparr>getcwd = [''tmp'', ''locked'', ''work''],
      inodes = tmp_inodes([''tmp'', ''locked''] \<mapsto> Dir, [''tmp'', ''locked'', ''work''] \<mapsto> Dir),
      searchable = (\<lambda>d. d \<noteq> [''tmp'', ''locked'']), recursion_room = 900\<rparr>"

definition tmp_removed :: posix where
  "tmp_removed =
     \<lparr>getcwd = [''tmp'', ''gone''], inodes = tmp_inodes,
      searchable = (\<lambda>d. True), recursion_room = 900\<rparr>"

definition start :: "posix \<Rightarrow> world" where
  "start p = \<lparr>fs = posix_filesystem p, trace = []\<rparr>"

text \<open>A \<open>gamdl\<close> whose calls all return, with a queue of one item.\<close>

definition quiet_gamdl :: gamdl where
  "quiet_gamdl =
     \<lparr>import_raises = (\<lambda>m. None), raises = (\<lambda>c. None), effect = (\<lambda>c f. f),
      url_info = True, download_queue = 1\<rparr>"

section \<open>Facts about the example worlds\<close>

lemma present_resolve_cookies:
  "resolve (fs (start tmp_present)) ''cookies.txt'' = Inr ''/tmp/t0/cookies.txt''"
  by code_simp

lemma present_stat_cookies:
  "stat (fs (start tmp_present)) ''/tmp/t0/cookies.txt'' = Inr (Some RegularFile)"
  by code_simp

lemma missing_resolve_cookies:
  "resolve (fs (start tmp_missing)) ''cookies.txt'' = Inr ''/tmp/t0/cookies.txt''"
  by code_simp

lemma missing_stat_cookies:
  "stat (fs (start tmp_missing)) ''/tmp/t0/cookies.txt'' = Inr None"
  by code_simp

lemma present_resolve_d: "resolve (fs (start tmp_present)) ''d'' = Inr ''/tmp/t0/d''"
  by code_simp

lemma present_resolve_l: "resolve (fs (start tmp_present)) ''l'' = Inr ''/tmp/t0/d''"
  by code_simp

lemma present_stat_d: "stat (fs (start tmp_present)) ''/tmp/t0/d'' = Inr (Some Directory)"
  by code_simp

lemma dangling_resolve_l: "resolve (fs (start tmp_dangling)) ''l'' = Inr ''/tmp/t0/d''"
  by code_simp

lemma dangling_stat_d: "stat (fs (start tmp_dangling)) ''/tmp/t0/d'' = Inr None"
  by code_simp

section \<open>The validator\<close>

lemmas validate_defs =
  validate_cookies_path_def path_resolve_def path_is_file_def is_file_def record_event_def

lemma sublist_missing_cookies_message: "sublist r (missing_cookies_message r)"
  unfolding missing_cookies_message_def sublist_def by (metis append.assoc)

lemma validate_fs: "fs (snd (validate_cookies_path arg w)) = fs w"
  by (simp add: validate_defs Let_def split: sum.splits prod.splits)

lemma validate_result_fs:
  "fs w' = fs w \<Longrightarrow> fst (validate_cookies_path arg w') = fst (validate_cookies_path arg w)"
  by (simp add: validate_defs Let_def split: sum.splits prod.splits)

lemma validate_trace:
  "\<exists>evs. trace (snd (validate_cookies_path arg w)) = trace w @ evs \<and> list_all is_path_query evs"
  by (simp add: validate_defs Let_def split: sum.splits prod.splits)

text \<open>
  C1. When the path resolves to \<open>r\<close> and a regular file is found at \<open>r\<close>, the validator
  raises nothing and returns \<open>r\<close>, the absolute resolved form of the path.
\<close>

theorem validate_existing_file:
  assumes "resolve (fs w) p = Inr r" and "stat (fs w) r = Inr (Some RegularFile)"
  shows "fst (validate_cookies_path (Some p) w) = Inr r"
  using assms by (simp add: validate_defs)

theorem validate_existing_file_witness:
  "resolve (fs (start tmp_present)) ''cookies.txt'' = Inr ''/tmp/t0/cookies.txt'' \<and>
   stat (fs (start tmp_present)) ''/tmp/t0/cookies.txt'' = Inr (Some RegularFile) \<and>
   fst (validate_cookies_path (Some ''cookies.txt'') (start tmp_present)) =
     Inr ''/tmp/t0/cookies.txt''"
  using validate_existing_file [OF present_resolve_cookies present_stat_cookies]
    present_resolve_cookies present_stat_cookies
  by simp

text \<open>
  C2. When the path resolves to \<open>r\<close>, \<open>stat\<close> answers at \<open>r\<close>, and what it finds is not a
  regular file (nothing, or another type of file), the validator raises
  \<open>FileNotFoundError\<close>, and the message contains \<open>r\<close> literally. That \<open>stat\<close> answers
  is needed: where it fails, no regular file is at \<open>r\<close> either, and what the validator
  raises is the failure of \<open>stat\<close> (see the counterexample below).
\<close>

theorem validate_missing_file:
  assumes "resolve (fs w) p = Inr r" and "stat (fs w) r = Inr t" and "t \<noteq> Some RegularFile"
  shows "\<exists>m. fst (validate_cookies_path (Some p) w) = Inl (FileNotFoundError m) \<and> sublist r m"
proof -
  have "fst (validate_cookies_path (Some p) w) =
      Inl (FileNotFoundError (missing_cookies_message r))"
    using assms by (simp add: validate_defs)
  then show ?thesis
    using sublist_missing_cookies_message by blast
qed

theorem validate_missing_file_witness:
  "resolve (fs (start tmp_missing)) ''cookies.txt'' = Inr ''/tmp/t0/cookies.txt'' \<and>
   stat (fs (start tmp_missing)) ''/tmp/t0/cookies.txt'' = Inr None \<and>
   (\<exists>m. fst (validate_cookies_path (Some ''cookies.txt'') (start tmp_missing)) =
          Inl (FileNotFoundError m) \<and>
        sublist ''/tmp/t0/cookies.txt'' m)"
proof -
  have "None \<noteq> Some RegularFile" by simp
  then show ?thesis
    using validate_missing_file [OF missing_resolve_cookies missing_stat_cookies]
      missing_resolve_cookies missing_stat_cookies
    by blast
qed

text \<open>
  Without the condition that \<open>stat\<close> answers, the statement fails for a name of 300 characters in the
  working directory: nothing is stored there, the path resolves, and \<open>is_file\<close> raises
  \<open>OSError\<close> (error 36, file name too long), which is what leaves the validator.
\<close>

theorem validate_missing_file_counterexample:
  "inodes tmp_missing [''tmp'', ''t0'', replicate 300 (CHR ''x'')] = None \<and>
   resolve (fs (start tmp_missing)) (replicate 300 (CHR ''x'')) =
     Inr (''/tmp/t0/'' @ replicate 300 (CHR ''x'')) \<and>
   fst (validate_cookies_path (Some (replicate 300 (CHR ''x''))) (start tmp_missing)) =
     Inl (OSError (''[Errno 36] File name too long: '' @ [CHR 39] @ ''/tmp/t0/'' @
                   replicate 300 (CHR ''x'') @ [CHR 39]))"
  by code_simp

text \<open>
  C3. When the path resolves to \<open>r\<close>, \<open>stat\<close> answers at \<open>r\<close> and finds no regular file
  there, the message is exactly the text of the contract: the fixed opening, the
  resolved path between single quotes, a full stop, and the instruction. Where \<open>stat\<close>
  fails, the message that leaves the validator is that of the failure.
\<close>

theorem validate_message_exact:
  assumes "resolve (fs w) p = Inr r" and "stat (fs w) r = Inr t" and "t \<noteq> Some RegularFile"
  shows "fst (validate_cookies_path (Some p) w) =
     Inl (FileNotFoundError
       (''Missing Apple Music cookies file at '' @ [CHR 39] @ r @ [CHR 39] @
        ''. Create a Netscape-format cookies.txt export before running downloads.''))"
  using assms by (simp add: validate_defs missing_cookies_message_def)

theorem validate_message_exact_witness:
  "resolve (fs (start tmp_present)) ''d'' = Inr ''/tmp/t0/d'' \<and>
   stat (fs (start tmp_present)) ''/tmp/t0/d'' = Inr (Some Directory) \<and>
   fst (validate_cookies_path (Some ''d'') (start tmp_present)) =
     Inl (FileNotFoundError
       (''Missing Apple Music cookies file at '' @ [CHR 39] @ ''/tmp/t0/d'' @ [CHR 39] @
        ''. Create a Netscape-format cookies.txt export before running downloads.''))"
proof -
  have "Some Directory \<noteq> Some RegularFile" by simp
  then show ?thesis
    using validate_message_exact [OF present_resolve_d present_stat_d]
      present_resolve_d present_stat_d
    by blast
qed

text \<open>
  For a name of 300 characters in the directory \<open>d\<close> the resolved form is not a regular
  file, and the message is that of the \<open>OSError\<close>, not the contract's.
\<close>

theorem validate_message_exact_counterexample:
  "inodes tmp_present [''tmp'', ''t0'', ''d'', replicate 300 (CHR ''y'')] = None \<and>
   resolve (fs (start tmp_present)) (''d/'' @ replicate 300 (CHR ''y'')) =
     Inr (''/tmp/t0/d/'' @ replicate 300 (CHR ''y'')) \<and>
   fst (validate_cookies_path (Some (''d/'' @ replicate 300 (CHR ''y''))) (start tmp_present)) =
     Inl (OSError (''[Errno 36] File name too long: '' @ [CHR 39] @ ''/tmp/t0/d/'' @
                   replicate 300 (CHR ''y'') @ [CHR 39])) \<and>
   ''[Errno 36] File name too long: '' @ [CHR 39] @ ''/tmp/t0/d/'' @
       replicate 300 (CHR ''y'') @ [CHR 39] \<noteq>
     ''Missing Apple Music cookies file at '' @ [CHR 39] @ ''/tmp/t0/d/'' @
       replicate 300 (CHR ''y'') @ [CHR 39] @
       ''. Create a Netscape-format cookies.txt export before running downloads.''"
  by code_simp

text \<open>
  C4. When something exists at the resolved path \<open>r\<close> but is not a regular file (a
  directory, also when reached through a link), the validator raises the
  \<open>FileNotFoundError\<close> with the message for \<open>r\<close>: the very outcome it has in a world
  where the path resolves to the same \<open>r\<close> and nothing exists there.
\<close>

theorem validate_not_regular_file:
  assumes "resolve (fs w) p = Inr r" and "stat (fs w) r = Inr (Some t)" and "t \<noteq> RegularFile"
    and "resolve (fs w') p = Inr r" and "stat (fs w') r = Inr None"
  shows "fst (validate_cookies_path (Some p) w) =
       Inl (FileNotFoundError (missing_cookies_message r)) \<and>
     fst (validate_cookies_path (Some p) w) = fst (validate_cookies_path (Some p) w')"
  using assms by (simp add: validate_defs)

theorem validate_not_regular_file_witness:
  "resolve (fs (start tmp_present)) ''l'' = Inr ''/tmp/t0/d'' \<and>
   stat (fs (start tmp_present)) ''/tmp/t0/d'' = Inr (Some Directory) \<and>
   resolve (fs (start tmp_dangling)) ''l'' = Inr ''/tmp/t0/d'' \<and>
   stat (fs (start tmp_dangling)) ''/tmp/t0/d'' = Inr None \<and>
   fst (validate_cookies_path (Some ''l'') (start tmp_present)) =
     Inl (FileNotFoundError (missing_cookies_message ''/tmp/t0/d'')) \<and>
   fst (validate_cookies_path (Some ''l'') (start tmp_present)) =
     fst (validate_cookies_path (Some ''l'') (start tmp_dangling))"
proof -
  have "Directory \<noteq> RegularFile" by simp
  then show ?thesis
    using validate_not_regular_file
        [OF present_resolve_l present_stat_d _ dangling_resolve_l dangling_stat_d]
      present_resolve_l present_stat_d dangling_resolve_l dangling_stat_d
    by blast
qed

text \<open>
  C5. Called with no argument, the validator does what it does when called with the
  relative name \<open>cookies.txt\<close>: same result and same world afterwards, in every world
  (the name is resolved in the world of the call).
\<close>

theorem validate_default_argument:
  "validate_cookies_path None w = validate_cookies_path (Some ''cookies.txt'') w"
  by (simp add: validate_cookies_path_def)

text \<open>
  C6. A second call with the same argument, made in the world the first call left,
  gives the result of the first: the same path, or the same exception with the same
  message.
\<close>

theorem validate_twice_same_result:
  "fst (validate_cookies_path arg (snd (validate_cookies_path arg w))) =
   fst (validate_cookies_path arg w)"
  by (rule validate_result_fs) (rule validate_fs)

text \<open>
  C7. The validator leaves the file system as it found it, and all it adds to the
  history are path queries (\<open>resolve\<close>, \<open>is_file\<close>).
\<close>

theorem validate_leaves_filesystem:
  "fs (snd (validate_cookies_path arg w)) = fs w \<and>
   (\<exists>evs. trace (snd (validate_cookies_path arg w)) = trace w @ evs \<and>
      list_all is_path_query evs)"
  using validate_fs validate_trace by blast

text \<open>
  C8. What leaves the validator, in every world: a returned path means that the path
  resolved to it and a regular file is there; an exception is either the one that
  \<open>resolve\<close> or \<open>stat\<close> raised, unchanged, or the \<open>FileNotFoundError\<close> with the
  contract's message, raised when \<open>stat\<close> answers and finds no regular file. So an
  exception of any other class than \<open>FileNotFoundError\<close> is a failure of
  \<open>resolve\<close> or \<open>stat\<close>. The class does not separate the missing file from a
  \<open>FileNotFoundError\<close> that \<open>resolve\<close> or \<open>stat\<close> raises itself: see the
  counterexample below.
\<close>

theorem missing_file_error_kind:
  "(case fst (validate_cookies_path (Some p) w) of
      Inr q \<Rightarrow> resolve (fs w) p = Inr q \<and> stat (fs w) q = Inr (Some RegularFile)
    | Inl e \<Rightarrow>
        resolve (fs w) p = Inl e \<or>
        (\<exists>r. resolve (fs w) p = Inr r \<and> stat (fs w) r = Inl e) \<or>
        (\<exists>r t. resolve (fs w) p = Inr r \<and> stat (fs w) r = Inr t \<and> t \<noteq> Some RegularFile \<and>
               e = FileNotFoundError (missing_cookies_message r))) \<and>
   (\<forall>e. fst (validate_cookies_path (Some p) w) = Inl e \<and> \<not> is_FileNotFoundError e \<longrightarrow>
        resolve (fs w) p = Inl e \<or> (\<exists>r. resolve (fs w) p = Inr r \<and> stat (fs w) r = Inl e))"
proof (cases "resolve (fs w) p")
  case (Inl e)
  then show ?thesis by (simp add: validate_defs)
next
  case (Inr r)
  show ?thesis
  proof (cases "stat (fs w) r")
    case (Inl e)
    with Inr show ?thesis by (simp add: validate_defs)
  next
    case st: (Inr t)
    with Inr show ?thesis by (auto simp: validate_defs)
  qed
qed

lemma locked_resolve_empty: "resolve (fs (start tmp_locked)) [] = Inr ''/tmp/locked/work''"
  by code_simp

lemma locked_stat_cwd:
  "stat (fs (start tmp_locked)) ''/tmp/locked/work'' =
     Inl (PermissionError (''[Errno 13] Permission denied: '' @ [CHR 39] @ ''/tmp/locked/work'' @ [CHR 39]))"
  by code_simp

lemma locked_validate_empty:
  "fst (validate_cookies_path (Some []) (start tmp_locked)) =
     Inl (PermissionError (''[Errno 13] Permission denied: '' @ [CHR 39] @ ''/tmp/locked/work'' @ [CHR 39]))"
  by code_simp

theorem missing_file_error_kind_witness:
  "fst (validate_cookies_path (Some []) (start tmp_locked)) =
     Inl (PermissionError (''[Errno 13] Permission denied: '' @ [CHR 39] @ ''/tmp/locked/work'' @ [CHR 39])) \<and>
   \<not> is_FileNotFoundError
     (PermissionError (''[Errno 13] Permission denied: '' @ [CHR 39] @ ''/tmp/locked/work'' @ [CHR 39])) \<and>
   resolve (fs (start tmp_locked)) [] = Inr ''/tmp/locked/work'' \<and>
   stat (fs (start tmp_locked)) ''/tmp/locked/work'' =
     Inl (PermissionError (''[Errno 13] Permission denied: '' @ [CHR 39] @ ''/tmp/locked/work'' @ [CHR 39]))"
  using missing_file_error_kind [where p = "[]" and w = "start tmp_locked"]
    locked_validate_empty locked_resolve_empty locked_stat_cwd
  by simp

text \<open>
  In a working directory that has been removed, \<open>os.getcwd\<close> fails inside \<open>resolve\<close>
  with a \<open>FileNotFoundError\<close>. The validator passes it on: an exception of the class of
  the missing-file failure (raised here in the world without \<open>cookies.txt\<close>), and no
  file was looked for.
\<close>

theorem missing_file_error_kind_counterexample:
  "resolve (fs (start tmp_removed)) ''cookies.txt'' =
     Inl (FileNotFoundError ''[Errno 2] No such file or directory'') \<and>
   fst (validate_cookies_path (Some ''cookies.txt'') (start tmp_removed)) =
     Inl (FileNotFoundError ''[Errno 2] No such file or directory'') \<and>
   is_FileNotFoundError (FileNotFoundError ''[Errno 2] No such file or directory'') \<and>
   fst (validate_cookies_path (Some ''cookies.txt'') (start tmp_missing)) =
     Inl (FileNotFoundError (missing_cookies_message ''/tmp/t0/cookies.txt''))"
  by code_simp

section \<open>The order of calls in \<open>main\<close>\<close>

lemma gamdl_calls_imports: "gamdl_calls (map Import ms @ evs) = gamdl_calls evs"
  by (induction ms) auto

lemma validated_first_imports: "validated_first (map Import ms @ evs) = validated_first evs"
  by (induction ms) auto

lemma run_imports_world:
  "\<exists>ms'. snd (run_imports g ms w) = w\<lparr>trace := trace w @ map Import ms'\<rparr>"
proof (induction ms arbitrary: w)
  case Nil
  have "snd (run_imports g [] w) = w\<lparr>trace := trace w @ map Import []\<rparr>" by simp
  then show ?case by blast
next
  case (Cons m ms)
  show ?case
  proof (cases "import_raises g m")
    case (Some e)
    then have "snd (run_imports g (m # ms) w) = w\<lparr>trace := trace w @ map Import [m]\<rparr>"
      by (simp add: import_module_def record_event_def)
    then show ?thesis by blast
  next
    case None
    then have step: "run_imports g (m # ms) w = run_imports g ms (record_event (Import m) w)"
      by (simp add: import_module_def)
    obtain ms' where "snd (run_imports g ms (record_event (Import m) w)) =
        (record_event (Import m) w)\<lparr>trace := trace (record_event (Import m) w) @ map Import ms'\<rparr>"
      using Cons.IH by blast
    then have "snd (run_imports g (m # ms) w) = w\<lparr>trace := trace w @ map Import (m # ms')\<rparr>"
      unfolding step by (simp add: record_event_def)
    then show ?thesis by blast
  qed
qed

lemma validate_world:
  "\<exists>more. snd (validate_cookies_path None w) =
      w\<lparr>trace := trace w @ PathResolve ''cookies.txt'' # more\<rparr> \<and> gamdl_calls more = []"
proof (cases "resolve (fs w) ''cookies.txt''")
  case (Inl e)
  then have "snd (validate_cookies_path None w) =
      w\<lparr>trace := trace w @ PathResolve ''cookies.txt'' # []\<rparr>"
    by (simp add: validate_defs)
  then show ?thesis by (metis gamdl_calls.simps(1))
next
  case (Inr r)
  then have "snd (validate_cookies_path None w) =
      w\<lparr>trace := trace w @ PathResolve ''cookies.txt'' # [PathIsFile r]\<rparr>"
    by (cases "stat (fs w) r") (simp_all add: validate_defs Let_def)
  moreover have "gamdl_calls [PathIsFile r] = []" by simp
  ultimately show ?thesis by blast
qed

lemma run_calls_trace: "\<exists>evs. trace (snd (run_calls g cs w)) = trace w @ evs"
proof (induction cs arbitrary: w)
  case Nil
  then show ?case by simp
next
  case (Cons c cs)
  let ?w' = "record_event (Gamdl c) (w\<lparr>fs := effect g c (fs w)\<rparr>)"
  show ?case
  proof (cases "raises g c")
    case (Some e)
    then show ?thesis by (simp add: call_gamdl_def record_event_def Let_def)
  next
    case None
    then have step: "run_calls g (c # cs) w = run_calls g cs ?w'"
      by (simp add: call_gamdl_def Let_def)
    obtain evs where "trace (snd (run_calls g cs ?w')) = trace ?w' @ evs"
      using Cons.IH by blast
    then have "trace (snd (run_calls g (c # cs) w)) = trace w @ Gamdl c # evs"
      unfolding step by (simp add: record_event_def)
    then show ?thesis by blast
  qed
qed

lemma call_gamdl_trace: "trace (snd (call_gamdl g c w)) = trace w @ [Gamdl c]"
  by (simp add: call_gamdl_def record_event_def Let_def split: option.splits)

text \<open>What \<open>main\<close> adds to the history: imports, then the validator's events, then the rest;
  the rest is empty unless the imports and the validation succeeded.\<close>

lemma main_events:
  "\<exists>ms' more rest.
     new_events w (snd (main g w)) = map Import ms' @ more @ rest \<and>
     gamdl_calls more = [] \<and>
     (more = [] \<and> rest = [] \<or> (\<exists>tl. more = PathResolve ''cookies.txt'' # tl)) \<and>
     (isl (fst (run_imports g gamdl_modules w)) \<or>
      isl (fst (validate_cookies_path None w)) \<longrightarrow> rest = [])"
proof -
  obtain r0 w0 where ri: "run_imports g gamdl_modules w = (r0, w0)" by fastforce
  obtain ms' where w0: "w0 = w\<lparr>trace := trace w @ map Import ms'\<rparr>"
    using run_imports_world [of g gamdl_modules w] ri by auto
  show ?thesis
  proof (cases r0)
    case (Inl e)
    then have "main g w = (Inl e, w0)" by (simp add: main_def ri)
    then have "new_events w (snd (main g w)) = map Import ms' @ [] @ []"
      by (simp add: new_events_def w0)
    moreover have "gamdl_calls [] = []" by simp
    ultimately show ?thesis by blast
  next
    case (Inr u)
    obtain r1 w1 where va: "validate_cookies_path None w0 = (r1, w1)" by fastforce
    obtain more where w1: "w1 = w0\<lparr>trace := trace w0 @ PathResolve ''cookies.txt'' # more\<rparr>"
      and more: "gamdl_calls more = []"
      using validate_world [of w0] va by auto
    have same: "fst (validate_cookies_path None w) = r1"
      using validate_result_fs [of w0 w None] va by (simp add: w0)
    let ?more = "PathResolve ''cookies.txt'' # more"
    have gm: "gamdl_calls ?more = []" using more by simp
    show ?thesis
    proof (cases r1)
      case (Inl e)
      then have "main g w = (Inl e, w1)" by (simp add: main_def ri Inr va)
      then have "new_events w (snd (main g w)) = map Import ms' @ ?more @ []"
        by (simp add: new_events_def w0 w1)
      with gm show ?thesis by blast
    next
      case r1: (Inr cookies_path)
      have "\<exists>rest. trace (snd (main g w)) = trace w1 @ rest"
      proof -
        obtain r2 w2 where rc: "run_calls g (setup_calls cookies_path) w1 = (r2, w2)" by fastforce
        obtain e2 where w2: "trace w2 = trace w1 @ e2"
          using run_calls_trace [of g "setup_calls cookies_path" w1] rc by auto
        have m: "main g w =
          (case r2 of Inl e \<Rightarrow> (Inl e, w2)
           | Inr u \<Rightarrow> if url_info g then
              (case call_gamdl g GetDownloadQueue w2 of
                 (Inl e, w3) \<Rightarrow> (Inl e, w3)
               | (Inr u, w3) \<Rightarrow>
                   if download_queue g \<noteq> 0
                   then run_calls g (map Download [0..<download_queue g]) w3
                   else (Inr (), w3))
              else (Inr (), w2))"
          by (simp add: main_def ri Inr va r1 rc)
        obtain r3 w3 where cg: "call_gamdl g GetDownloadQueue w2 = (r3, w3)" by fastforce
        have w3: "trace w3 = trace w1 @ e2 @ [Gamdl GetDownloadQueue]"
          using call_gamdl_trace [of g GetDownloadQueue w2] cg w2 by simp
        obtain e4 where w4: "trace (snd (run_calls g (map Download [0..<download_queue g]) w3))
            = trace w1 @ e2 @ [Gamdl GetDownloadQueue] @ e4"
          using run_calls_trace [of g "map Download [0..<download_queue g]" w3] w3 by auto
        show ?thesis
          using w2 w3 w4 by (auto simp: m cg split: sum.splits)
      qed
      then obtain rest where "trace (snd (main g w)) = trace w1 @ rest" by blast
      then have "new_events w (snd (main g w)) = map Import ms' @ ?more @ rest"
        by (simp add: new_events_def w0 w1)
      moreover have "\<not> isl (fst (run_imports g gamdl_modules w))" using ri Inr by simp
      moreover have "\<not> isl (fst (validate_cookies_path None w))" using same r1 by simp
      ultimately show ?thesis using gm by blast
    qed
  qed
qed

lemma main_result:
  "fst (validate_cookies_path None w) = Inl e \<Longrightarrow>
   isl (fst (main g w)) \<and> (fst (run_imports g gamdl_modules w) = Inr () \<longrightarrow> fst (main g w) = Inl e)"
proof -
  assume v: "fst (validate_cookies_path None w) = Inl e"
  obtain r0 w0 where ri: "run_imports g gamdl_modules w = (r0, w0)" by fastforce
  have "fs w0 = fs w" using run_imports_world [of g gamdl_modules w] ri by auto
  then have "fst (validate_cookies_path None w0) = Inl e"
    using validate_result_fs [of w0 w None] v by simp
  then show ?thesis
    by (cases r0) (auto simp: main_def ri split: prod.splits sum.splits)
qed

text \<open>
  C9. In every run of \<open>main\<close>, no \<open>gamdl\<close> call (construction of a session, an
  interface or a downloader, or a download) is made before the validator has started
  on the default cookies path. When the validation fails in the world \<open>main\<close> starts
  in, the run makes no \<open>gamdl\<close> call at all and ends with an exception: the
  validator's, unless an import has failed before.
\<close>

theorem main_validates_first:
  "validated_first (new_events w (snd (main g w))) \<and>
   (\<forall>e. fst (validate_cookies_path None w) = Inl e \<longrightarrow>
      gamdl_calls (new_events w (snd (main g w))) = [] \<and>
      isl (fst (main g w)) \<and>
      (fst (run_imports g gamdl_modules w) = Inr () \<longrightarrow> fst (main g w) = Inl e))"
proof -
  obtain ms' more rest where
    ev: "new_events w (snd (main g w)) = map Import ms' @ more @ rest"
    and gm: "gamdl_calls more = []"
    and shape: "more = [] \<and> rest = [] \<or> (\<exists>tl. more = PathResolve ''cookies.txt'' # tl)"
    and fail: "isl (fst (run_imports g gamdl_modules w)) \<or>
      isl (fst (validate_cookies_path None w)) \<longrightarrow> rest = []"
    using main_events [of w g] by blast
  have "validated_first (more @ rest)" using shape by auto
  then have first: "validated_first (new_events w (snd (main g w)))"
    by (simp add: ev validated_first_imports)
  have "gamdl_calls (new_events w (snd (main g w))) = []"
    if "fst (validate_cookies_path None w) = Inl e" for e
    using that fail gm by (simp add: ev gamdl_calls_imports)
  with first main_result show ?thesis by blast
qed

lemma missing_validate_fails:
  "fst (validate_cookies_path None (start tmp_missing)) =
     Inl (FileNotFoundError (missing_cookies_message ''/tmp/t0/cookies.txt''))"
  by code_simp

lemma quiet_imports: "fst (run_imports quiet_gamdl gamdl_modules (start tmp_missing)) = Inr ()"
  by code_simp

theorem main_validates_first_witness:
  "fst (validate_cookies_path None (start tmp_missing)) =
     Inl (FileNotFoundError (missing_cookies_message ''/tmp/t0/cookies.txt'')) \<and>
   validated_first (new_events (start tmp_missing) (snd (main quiet_gamdl (start tmp_missing)))) \<and>
   gamdl_calls (new_events (start tmp_missing) (snd (main quiet_gamdl (start tmp_missing)))) = [] \<and>
   fst (main quiet_gamdl (start tmp_missing)) =
     Inl (FileNotFoundError (missing_cookies_message ''/tmp/t0/cookies.txt''))"
  using main_validates_first [of "start tmp_missing" quiet_gamdl]
    missing_validate_fails quiet_imports
  by simp

section \<open>The empty path\<close>

lemma split_sep_name: "CHR ''/'' \<notin> set c \<Longrightarrow> split_sep (c @ CHR ''/'' # s) = c # split_sep s"
  by (induction c) (auto split: list.splits)

lemma split_sep_join_sep:
  "list_all proper_name cs \<Longrightarrow> cs \<noteq> [] \<Longrightarrow> split_sep (join_sep cs @ ''/'') = cs @ [[]]"
proof (induction cs rule: join_sep.induct)
  case 1
  then show ?case by simp
next
  case (2 c)
  then have "CHR ''/'' \<notin> set c" by (simp add: proper_name_def)
  then show ?case using split_sep_name [of c "[]"] by simp
next
  case (3 c d ds)
  then have "CHR ''/'' \<notin> set c" by (simp add: proper_name_def)
  then show ?case using 3 split_sep_name [of c "join_sep (d # ds) @ ''/''"] by simp
qed

lemma norm_step_names:
  "list_all proper_name cs \<Longrightarrow> foldl (norm_step n) acc cs = acc @ cs"
  by (induction cs arbitrary: acc) (simp_all add: norm_step_def proper_name_def)

lemma proper_name_ends:
  assumes "proper_name c"
  shows "c \<noteq> [] \<and> hd c \<noteq> CHR ''/'' \<and> last c \<noteq> CHR ''/''"
proof -
  have ne: "c \<noteq> []" and ns: "CHR ''/'' \<notin> set c"
    using assms by (simp_all add: proper_name_def)
  from ne have "hd c \<in> set c" and "last c \<in> set c" by simp_all
  with ne ns show ?thesis by metis
qed

lemma join_sep_ends:
  "list_all proper_name cs \<Longrightarrow> cs \<noteq> [] \<Longrightarrow>
   join_sep cs \<noteq> [] \<and> hd (join_sep cs) \<noteq> CHR ''/'' \<and> last (join_sep cs) \<noteq> CHR ''/''"
proof (induction cs rule: join_sep.induct)
  case 1
  then show ?case by simp
next
  case (2 c)
  then show ?case using proper_name_ends [of c] by simp
next
  case (3 c d ds)
  then show ?case using proper_name_ends [of c] by (simp add: hd_append)
qed

lemma normpath_cwd:
  assumes "list_all proper_name cs"
  shows "normpath (join (path_string cs) []) = path_string cs"
proof (cases "cs = []")
  case True
  then show ?thesis by (simp add: path_string_def join_def isabs_def normpath_def norm_step_def)
next
  case False
  have ends: "join_sep cs \<noteq> []" "hd (join_sep cs) \<noteq> CHR ''/''" "last (join_sep cs) \<noteq> CHR ''/''"
    using join_sep_ends [OF assms False] by simp_all
  obtain a as where j: "join_sep cs = a # as" and a: "a \<noteq> CHR ''/''"
    using ends by (cases "join_sep cs") auto
  have jn: "join (path_string cs) [] = CHR ''/'' # join_sep cs @ ''/''"
    using ends by (simp add: join_def path_string_def isabs_def)
  have sp: "split_sep (CHR ''/'' # join_sep cs @ ''/'') = [] # cs @ [[]]"
    using split_sep_join_sep [OF assms False] by simp
  have "foldl (norm_step 1) [] ([] # cs @ [[]]) = cs"
    using norm_step_names [OF assms, of 1 "[]"] by (simp add: norm_step_def)
  then show ?thesis
    unfolding jn using sp j a
    by (simp add: normpath_def isabs_def path_string_def Let_def)
qed

lemma resolve_empty:
  assumes "cwd_ok p" and "stat_posix p (path_string (getcwd p)) = Inr (Some Directory)"
  shows "resolve_posix p [] = Inr (path_string (getcwd p))"
proof -
  have names: "list_all proper_name (getcwd p)" and there: "inode_at p (getcwd p) = Some Dir"
    using assms(1) by (simp_all add: cwd_ok_def)
  have rp: "realpath p [] = Inr (path_string (getcwd p))"
    using there normpath_cwd [OF names]
    by (simp add: realpath_def abspath_def os_getcwd_def isabs_def)
  have nul: "CHR 0x00 \<notin> set (path_string (getcwd p))"
    using assms(2) by (auto simp: stat_posix_def split: if_splits)
  have "path_lookup p True (path_string (getcwd p)) \<noteq> Inl ELOOP"
    using assms(2) nul by (auto simp: stat_posix_def split: if_splits sum.splits inode.splits errno.splits)
  then show ?thesis using rp nul by (simp add: resolve_posix_def)
qed

text \<open>
  C10. On the POSIX file system, with a working directory that exists and at which
  \<open>stat\<close> finds a directory, the empty string resolves to the working directory and
  the validator raises \<open>FileNotFoundError\<close> with the absolute path of the working
  directory in the message. That \<open>stat\<close> finds the directory is needed: see the
  counterexample below.
\<close>

theorem validate_empty_string:
  assumes "cwd_ok p" and "stat_posix p (path_string (getcwd p)) = Inr (Some Directory)"
  shows "fst (validate_cookies_path (Some []) \<lparr>fs = posix_filesystem p, trace = t\<rparr>) =
       Inl (FileNotFoundError (missing_cookies_message (path_string (getcwd p)))) \<and>
     sublist (path_string (getcwd p)) (missing_cookies_message (path_string (getcwd p)))"
  using sublist_missing_cookies_message resolve_empty [OF assms] assms(2)
  by (simp add: validate_defs posix_filesystem_def)

lemma tmp_present_cwd_ok: "cwd_ok tmp_present"
  by code_simp

lemma tmp_present_stat_cwd: "stat_posix tmp_present (path_string (getcwd tmp_present)) = Inr (Some Directory)"
  by code_simp

theorem validate_empty_string_witness:
  "cwd_ok tmp_present \<and>
   stat_posix tmp_present ''/tmp/t0'' = Inr (Some Directory) \<and>
   fst (validate_cookies_path (Some []) \<lparr>fs = posix_filesystem tmp_present, trace = []\<rparr>) =
     Inl (FileNotFoundError (missing_cookies_message ''/tmp/t0'')) \<and>
   sublist ''/tmp/t0'' (missing_cookies_message ''/tmp/t0'')"
proof -
  have "path_string (getcwd tmp_present) = ''/tmp/t0''" by code_simp
  then show ?thesis
    using validate_empty_string [OF tmp_present_cwd_ok tmp_present_stat_cwd, of "[]"]
      tmp_present_cwd_ok tmp_present_stat_cwd
    by simp
qed

text \<open>
  A process whose working directory lies under a directory it may not search: the
  working directory exists and is a directory, the empty string resolves to it, and
  \<open>is_file\<close> raises \<open>PermissionError\<close>.
\<close>

theorem validate_empty_string_counterexample:
  "cwd_ok tmp_locked \<and>
   inode_at tmp_locked [''tmp'', ''locked'', ''work''] = Some Dir \<and>
   resolve (fs (start tmp_locked)) [] = Inr ''/tmp/locked/work'' \<and>
   fst (validate_cookies_path (Some []) (start tmp_locked)) =
     Inl (PermissionError
       (''[Errno 13] Permission denied: '' @ [CHR 39] @ ''/tmp/locked/work'' @ [CHR 39]))"
  by code_simp

end
